theory Spec2Isabelle
  imports Main "HOL-Library.Word" "HOL-Library.Multiset"
begin

section \<open>Connection string (main.py, lines 10-18)\<close>

text \<open>
  \<^verbatim>\<open>DATABASE_URL = os.environ.get("DATABASE_URL", "sqlite:///./local_database.db")
  if DATABASE_URL.startswith("postgres://"):
      DATABASE_URL = DATABASE_URL.replace("postgres://", "postgresql://", 1)\<close>

  The process environment is a dictionary from names to strings.
\<close>

type_synonym environ = "string \<rightharpoonup> string"

definition environ_get :: "environ \<Rightarrow> string \<Rightarrow> string \<Rightarrow> string" where
  "environ_get env key dflt = (case env key of None \<Rightarrow> dflt | Some v \<Rightarrow> v)"

text \<open>\<^verbatim>\<open>s.startswith(p)\<close>\<close>

fun startswith :: "string \<Rightarrow> string \<Rightarrow> bool" where
  "startswith s [] = True"
| "startswith [] (p # ps) = False"
| "startswith (c # cs) (p # ps) = (c = p \<and> startswith cs ps)"

text \<open>\<^verbatim>\<open>s.replace(old, new, 1)\<close>: the leftmost occurrence of \<open>old\<close> is replaced, if any.\<close>

fun replace_first :: "string \<Rightarrow> string \<Rightarrow> string \<Rightarrow> string" where
  "replace_first [] old new = (if startswith [] old then new else [])"
| "replace_first (c # cs) old new =
     (if startswith (c # cs) old then new @ drop (length old) (c # cs)
      else c # replace_first cs old new)"

definition DATABASE_URL :: "environ \<Rightarrow> string" where
  "DATABASE_URL env =
     (let url = environ_get env ''DATABASE_URL'' ''sqlite:///./local_database.db''
      in if startswith url ''postgres://''
         then replace_first url ''postgres://'' ''postgresql://''
         else url)"

section \<open>The table (main.py, lines 23-26)\<close>

text \<open>
  \<^verbatim>\<open>class TodoItem(SQLModel, table=True):
      id: Optional[int] = Field(default=None, primary_key=True)
      title: str
      is_done: bool = False\<close>

  The class plays three parts in main.py: the object that a handler returns
  (\<open>TodoItem\<close>), the object that \<^verbatim>\<open>add_todo\<close> receives (\<open>new_item\<close>) and the row of
  the table (\<open>row\<close>). Each has its own type here.

  A \<open>TodoItem\<close> is an object loaded from the table, as the handlers return it and as a
  response shows it: all three attributes are set, \<open>id\<close> to a Python integer. The field
  \<open>id\<close> is called \<open>item_id\<close> here (\<open>id\<close> is the identity function of HOL).
\<close>

record TodoItem =
  item_id :: "int option"
  title :: string
  is_done :: bool

text \<open>
  A \<open>payload\<close> is the JSON object of a creation request: each of the three keys is
  present with a value of the field's type, or absent.
\<close>

record payload =
  p_id :: "int option"
  p_title :: "string option"
  p_is_done :: "bool option"

text \<open>
  A \<open>new_item\<close> is the object that \<^verbatim>\<open>add_todo(item: TodoItem, ...)\<close> receives. The class
  is a table model, and an object of a table model is constructed from the body without
  validation: an attribute with a default that the body leaves out gets the default
  (\<open>id\<close> is \<^verbatim>\<open>None\<close>, \<open>is_done\<close> is \<^verbatim>\<open>False\<close>), and \<open>title\<close>, which has no default,
  stays unset when the body has no title. This is done by the framework before the handler
  runs; main.py has no code of its own for it.
\<close>

record new_item =
  n_id :: "int option"
  n_title :: "string option"
  n_is_done :: bool

definition construct :: "payload \<Rightarrow> new_item" where
  "construct p =
     \<lparr>n_id = p_id p,
      n_title = p_title p,
      n_is_done = (case p_is_done p of None \<Rightarrow> False | Some b \<Rightarrow> b)\<rparr>"

text \<open>
  A \<open>row\<close> is a row of table \<open>todoitem\<close>. The three columns are NOT NULL (\<open>id\<close> is the
  primary key, \<open>title\<close> and \<open>is_done\<close> are not optional), and the key column is a signed
  machine integer of the width the database engine gives it: \<open>'w\<close> is 64 for the INTEGER
  of sqlite, the default of main.py, and 32 for the INTEGER of PostgreSQL.
\<close>

record (overloaded) 'w row =
  key :: "'w word"
  row_title :: string
  row_is_done :: bool

definition load :: "'w::len row \<Rightarrow> TodoItem" where
  "load r = \<lparr>item_id = Some (sint (key r)), title = row_title r, is_done = row_is_done r\<rparr>"

text \<open>
  What the code raises: the \<^verbatim>\<open>HTTPException(status_code, detail)\<close> of
  \<^verbatim>\<open>delete_todo\<close>; the \<^verbatim>\<open>IntegrityError\<close> of a commit that violates a constraint
  of the table; and \<open>DataError\<close>, the exception of the database driver for an integer
  that does not fit the key column (an \<^verbatim>\<open>OverflowError\<close> with sqlite, a
  \<^verbatim>\<open>DataError\<close> with PostgreSQL). main.py catches none of them.
\<close>

datatype error =
    HTTPException nat string
  | IntegrityError
  | DataError

section \<open>The store\<close>

text \<open>
  The database holds the rows of the table and whatever the engine keeps to generate
  primary keys (a sequence, or nothing when it derives them from the rows). The engine is
  selected by the connection string and is a parameter of the model. It has two parts:
  \<open>generate\<close> proposes, from the generator's state and the rows, a key of the column and
  the next state; \<open>scan_key\<close> gives the order in which a SELECT without ORDER BY delivers
  the rows: ascending in \<open>scan_key\<close>, rows of equal \<open>scan_key\<close> in the order of their
  insertion (a constant for a heap that is read in insertion order, the primary key for a
  table that is stored by key).
\<close>

record (overloaded) ('w, 'g) database =
  todoitem :: "'w row list"
  sequence :: 'g

record (overloaded) ('w, 'g) engine =
  generate :: "'g \<Rightarrow> 'w row list \<Rightarrow> 'w word \<times> 'g"
  scan_key :: "'w row \<Rightarrow> int"

text \<open>\<^verbatim>\<open>SQLModel.metadata.create_all(engine)\<close> on a database that has no table yet.\<close>

definition create_all :: "'g \<Rightarrow> ('w, 'g) database" where
  "create_all g = \<lparr>todoitem = [], sequence = g\<rparr>"

text \<open>
  A Python integer can be bound to a statement as a key only if it is in the range of the
  key column; the database driver raises otherwise.
\<close>

definition in_range :: "('w::len, 'g) engine \<Rightarrow> int \<Rightarrow> bool" where
  "in_range gen k = (- (2 ^ (LENGTH('w) - 1)) \<le> k \<and> k < 2 ^ (LENGTH('w) - 1))"

text \<open>\<^verbatim>\<open>session.get(TodoItem, todo_id)\<close>: the row with that primary key, or \<^verbatim>\<open>None\<close>.\<close>

definition session_get ::
  "('w::len, 'g) engine \<Rightarrow> ('w, 'g) database \<Rightarrow> int \<Rightarrow> error + TodoItem option" where
  "session_get gen db k =
     (if \<not> in_range gen k then Inl DataError
      else Inr (map_option load (find (\<lambda>r. key r = word_of_int k) (todoitem db))))"

text \<open>\<^verbatim>\<open>session.exec(select(TodoItem)).all()\<close>\<close>

definition session_select_all :: "('w::len, 'g) engine \<Rightarrow> ('w, 'g) database \<Rightarrow> TodoItem list" where
  "session_select_all gen db = map load (sort_key (scan_key gen) (todoitem db))"

text \<open>
  \<^verbatim>\<open>session.add(item); session.commit(); session.refresh(item)\<close>: one INSERT. An
  item whose \<open>id\<close> is set is inserted under that key, if the key column can hold it; an
  item whose \<open>id\<close> is \<^verbatim>\<open>None\<close> gets the key the engine generates. The NOT NULL
  constraint rejects an item whose \<open>title\<close> is unset, and the primary-key constraint a
  key that a row already has: the commit raises, and no row is inserted. A key that the
  engine generated for a rejected row is spent. The refreshed item is the stored row.
\<close>

definition session_add_commit ::
  "('w::len, 'g) engine \<Rightarrow> new_item \<Rightarrow> ('w, 'g) database
     \<Rightarrow> (error + TodoItem) \<times> ('w, 'g) database" where
  "session_add_commit gen item db =
     (case n_id item of
        Some c \<Rightarrow>
          (if \<not> in_range gen c then (Inl DataError, db)
           else
             (case n_title item of
                None \<Rightarrow> (Inl IntegrityError, db)
              | Some t \<Rightarrow>
                  (let r = \<lparr>key = word_of_int c, row_title = t, row_is_done = n_is_done item\<rparr>
                   in if key r \<in> set (map key (todoitem db)) then (Inl IntegrityError, db)
                      else (Inr (load r), db\<lparr>todoitem := todoitem db @ [r]\<rparr>))))
      | None \<Rightarrow>
          (let (k, g') = generate gen (sequence db) (todoitem db)
           in case n_title item of
                None \<Rightarrow> (Inl IntegrityError, db\<lparr>sequence := g'\<rparr>)
              | Some t \<Rightarrow>
                  (let r = \<lparr>key = k, row_title = t, row_is_done = n_is_done item\<rparr>
                   in if key r \<in> set (map key (todoitem db))
                      then (Inl IntegrityError, db\<lparr>sequence := g'\<rparr>)
                      else (Inr (load r), \<lparr>todoitem = todoitem db @ [r], sequence = g'\<rparr>))))"

text \<open>
  \<^verbatim>\<open>session.delete(item); session.commit()\<close>: one DELETE by the primary key of an item
  that was loaded from the table.
\<close>

definition session_delete_commit :: "TodoItem \<Rightarrow> ('w::len, 'g) database \<Rightarrow> ('w, 'g) database" where
  "session_delete_commit item db =
     db\<lparr>todoitem := filter (\<lambda>r. item_id (load r) \<noteq> item_id item) (todoitem db)\<rparr>"

section \<open>The handlers (main.py, lines 62-85)\<close>

definition get_all_todos :: "('w::len, 'g) engine \<Rightarrow> ('w, 'g) database \<Rightarrow> TodoItem list" where
  "get_all_todos gen db = session_select_all gen db"

definition add_todo ::
  "('w::len, 'g) engine \<Rightarrow> new_item \<Rightarrow> ('w, 'g) database
     \<Rightarrow> (error + TodoItem) \<times> ('w, 'g) database" where
  "add_todo gen item db = session_add_commit gen item db"

definition delete_todo ::
  "('w::len, 'g) engine \<Rightarrow> int \<Rightarrow> ('w, 'g) database
     \<Rightarrow> (error + (string \<times> string) list) \<times> ('w, 'g) database" where
  "delete_todo gen todo_id db =
     (case session_get gen db todo_id of
        Inl e \<Rightarrow> (Inl e, db)
      | Inr None \<Rightarrow> (Inl (HTTPException 404 ''Item not found''), db)
      | Inr (Some item) \<Rightarrow>
          (Inr [(''message'', ''Deleted successfully'')], session_delete_commit item db))"

section \<open>The HTTP surface\<close>

datatype request = GET_todos | POST_todos payload | DELETE_todos int

datatype content =
    Tasks "TodoItem list"
  | Task TodoItem
  | Object "(string \<times> string) list"
  | InternalServerError

type_synonym response = "nat \<times> content"

text \<open>
  An \<^verbatim>\<open>HTTPException\<close> is answered with its status code and
  \<^verbatim>\<open>{"detail": detail}\<close>, and an exception that no handler catches with 500.
\<close>

fun error_response :: "error \<Rightarrow> response" where
  "error_response (HTTPException code detail) = (code, Object [(''detail'', detail)])"
| "error_response IntegrityError = (500, InternalServerError)"
| "error_response DataError = (500, InternalServerError)"

text \<open>
  One request. The body of a POST is a JSON object and the path parameter of a DELETE an
  integer (the types \<open>payload\<close> and \<open>int\<close>); the item of \<^verbatim>\<open>add_todo\<close> is
  constructed from the body.
\<close>

fun app ::
  "('w::len, 'g) engine \<Rightarrow> request \<Rightarrow> ('w, 'g) database \<Rightarrow> response \<times> ('w, 'g) database" where
  "app gen GET_todos db = ((200, Tasks (get_all_todos gen db)), db)"
| "app gen (POST_todos p) db =
     (case add_todo gen (construct p) db of
        (Inl e, db') \<Rightarrow> (error_response e, db')
      | (Inr created, db') \<Rightarrow> ((200, Task created), db'))"
| "app gen (DELETE_todos todo_id) db =
     (case delete_todo gen todo_id db of
        (Inl e, db') \<Rightarrow> (error_response e, db')
      | (Inr msg, db') \<Rightarrow> ((200, Object msg), db'))"

text \<open>A sequence of requests, served one after the other.\<close>

fun serve ::
  "('w::len, 'g) engine \<Rightarrow> request list \<Rightarrow> ('w, 'g) database
     \<Rightarrow> response list \<times> ('w, 'g) database" where
  "serve gen [] db = ([], db)"
| "serve gen (r # rs) db =
     (let (resp, db') = app gen r db;
          (resps, db'') = serve gen rs db'
      in (resp # resps, db''))"

text \<open>The \<open>id\<close> that a response reports as created, if it is the response of a creation.\<close>

fun created_id :: "response \<Rightarrow> int option" where
  "created_id (code, Task t) = (if code = 200 then item_id t else None)"
| "created_id (code, other) = None"

fun is_DELETE :: "request \<Rightarrow> bool" where
  "is_DELETE (DELETE_todos todo_id) = True"
| "is_DELETE other = False"

fun is_created :: "response \<Rightarrow> bool" where
  "is_created (code, Task t) = (code = 200)"
| "is_created (code, other) = False"

text \<open>The \<open>id\<close>s of the rows of the table, as the loaded items have them.\<close>

definition ids :: "('w::len, 'g) database \<Rightarrow> int option list" where
  "ids db = map (\<lambda>r. item_id (load r)) (todoitem db)"

text \<open>The primary-key constraint: every row has an \<open>id\<close>, and no two rows share one.\<close>

definition primary_key :: "('w::len, 'g) database \<Rightarrow> bool" where
  "primary_key db = (distinct (ids db) \<and> None \<notin> set (ids db))"

text \<open>
  An engine for the examples: the keys come from a sequence over the key column, and a
  scan delivers the rows in the order of their insertion, as with PostgreSQL (32-bit
  keys). The sequence of the model starts over at the end of the key range; the examples
  stay far from it. The theorems hold for every engine.
\<close>

definition counter :: "('w::len, 'w word) engine" where
  "counter = \<lparr>generate = (\<lambda>s rows. (s + 1, s + 1)), scan_key = (\<lambda>r. 0)\<rparr>"

section \<open>Properties\<close>

subsection \<open>The connection string\<close>

lemma startswith_append: "startswith (p @ rest) p"
  by (induction p) auto

lemma startswith_iff: "startswith s p \<longleftrightarrow> (\<exists>rest. s = p @ rest)"
proof (induction s p rule: startswith.induct)
  case (1 s)
  show ?case by simp
next
  case (2 p ps)
  show ?case by simp
next
  case (3 c cs p ps)
  then show ?case by auto
qed

lemma replace_first_prefix: "replace_first (old @ rest) old new = new @ rest"
  by (cases "old @ rest") (auto simp: startswith_append dest: sym)

lemmas model_defs =
  construct_def load_def in_range_def add_todo_def session_add_commit_def session_get_def
  delete_todo_def session_delete_commit_def get_all_todos_def session_select_all_def
  counter_def create_all_def ids_def primary_key_def

subsection \<open>Keys and Python integers\<close>

lemma in_range_sint: "in_range (gen :: ('w::len, 'g) engine) (sint (w :: 'w word))"
  using sint_ge [of w] sint_lt [of w] by (simp add: in_range_def)

lemma sint_word_of_int_in_range:
  assumes "in_range (gen :: ('w::len, 'g) engine) k"
  shows "sint (word_of_int k :: 'w word) = k"
proof -
  from assms have "- (2 ^ (LENGTH('w) - 1)) \<le> k" and "k < 2 ^ (LENGTH('w) - 1)"
    by (simp_all add: in_range_def)
  then show ?thesis
    by (simp add: signed_of_int signed_take_bit_int_eq_self)
qed

lemma item_id_load_iff:
  "item_id (load (r :: 'w::len row)) = Some k
     \<longleftrightarrow> in_range (gen :: ('w, 'g) engine) k \<and> key r = word_of_int k"
proof
  assume "item_id (load r) = Some k"
  then have k: "k = sint (key r)" by (simp add: load_def)
  then show "in_range gen k \<and> key r = word_of_int k"
    by (simp add: in_range_sint)
next
  assume a: "in_range gen k \<and> key r = word_of_int k"
  then have "sint (word_of_int k :: 'w word) = k"
    using sint_word_of_int_in_range [of gen k] by simp
  with a show "item_id (load r) = Some k"
    by (simp add: load_def)
qed

lemma item_id_load_eq_iff:
  "item_id (load (r :: 'w::len row)) = item_id (load r') \<longleftrightarrow> key r = key r'"
proof
  assume "item_id (load r) = item_id (load r')"
  then have "sint (key r) = sint (key r')" by (simp add: load_def)
  then have "word_of_int (sint (key r)) = (word_of_int (sint (key r')) :: 'w word)" by simp
  then show "key r = key r'" by simp
next
  assume "key r = key r'"
  then show "item_id (load r) = item_id (load r')" by (simp add: load_def)
qed

lemma ids_iff:
  "Some k \<in> set (ids (db :: ('w::len, 'g) database))
     \<longleftrightarrow> in_range (gen :: ('w, 'g) engine) k \<and> word_of_int k \<in> set (map key (todoitem db))"
proof -
  have "Some k \<in> set (ids db) \<longleftrightarrow> (\<exists>r \<in> set (todoitem db). item_id (load r) = Some k)"
    unfolding ids_def set_map image_iff by (rule bex_cong [OF refl]) (rule eq_commute)
  also have "\<dots> \<longleftrightarrow> (\<exists>r \<in> set (todoitem db). in_range gen k \<and> key r = word_of_int k)"
    by (simp only: item_id_load_iff [where gen = gen])
  also have "\<dots> \<longleftrightarrow> in_range gen k \<and> word_of_int k \<in> set (map key (todoitem db))"
    unfolding set_map image_iff by (metis (no_types))
  finally show ?thesis .
qed

lemma None_notin_ids: "None \<notin> set (ids db)"
  by (auto simp: ids_def load_def)

lemma distinct_ids: "distinct (ids db) \<longleftrightarrow> distinct (map key (todoitem db))"
proof -
  have "inj_on (\<lambda>r. item_id (load r)) (set xs) \<longleftrightarrow> inj_on key (set xs)" for xs :: "'a row list"
    by (auto simp: inj_on_def item_id_load_eq_iff)
  then show ?thesis
    by (simp add: ids_def distinct_map)
qed

subsection \<open>The listing\<close>

lemma set_get_all_todos: "set (get_all_todos gen db) = load ` set (todoitem db)"
  by (simp add: get_all_todos_def session_select_all_def)

lemma length_get_all_todos: "length (get_all_todos gen db) = length (todoitem db)"
  by (simp add: get_all_todos_def session_select_all_def)

lemma mset_get_all_todos: "mset (get_all_todos gen db) = image_mset load (mset (todoitem db))"
  by (simp add: get_all_todos_def session_select_all_def)

lemma item_id_get_all_todos: "item_id ` set (get_all_todos gen db) = set (ids db)"
  by (auto simp: set_get_all_todos ids_def)

lemma no_row_iff:
  "(\<forall>row \<in> set (get_all_todos gen db). item_id row \<noteq> Some k) \<longleftrightarrow> Some k \<notin> set (ids db)"
  by (force simp: set_get_all_todos ids_def)

lemma filter_get_all_todos:
  "filter P (get_all_todos gen db)
     = get_all_todos gen (db\<lparr>todoitem := filter (\<lambda>r. P (load r)) (todoitem db)\<rparr>)"
  by (simp add: get_all_todos_def session_select_all_def filter_map comp_def filter_sort)

lemma get_all_todos_cong:
  "todoitem db' = todoitem db \<Longrightarrow> get_all_todos gen db' = get_all_todos gen db"
  by (simp add: get_all_todos_def session_select_all_def)

subsection \<open>What each handler does to the table\<close>

lemma session_get_cases:
  "session_get gen db k =
     (if \<not> in_range gen k then Inl DataError
      else if Some k \<in> set (ids db)
      then Inr (Some (load (the (find (\<lambda>r. key r = word_of_int k) (todoitem db)))))
      else Inr None)"
proof (cases "in_range gen k")
  case False
  then show ?thesis by (simp add: session_get_def)
next
  case True
  show ?thesis
  proof (cases "find (\<lambda>r. key r = word_of_int k) (todoitem db)")
    case None
    then have "word_of_int k \<notin> set (map key (todoitem db))"
      by (auto simp: find_None_iff)
    then have "Some k \<notin> set (ids db)" by (simp add: ids_iff [where gen = gen])
    with True None show ?thesis by (simp add: session_get_def)
  next
    case (Some r)
    then have "word_of_int k \<in> set (map key (todoitem db))"
      by (force simp: find_Some_iff in_set_conv_nth)
    with True have "Some k \<in> set (ids db)" by (simp add: ids_iff [where gen = gen])
    with True Some show ?thesis by (simp add: session_get_def)
  qed
qed

lemma session_get_item_id:
  assumes "session_get gen db k = Inr (Some item)"
  shows "item_id item = Some k"
proof -
  from assms have r: "in_range gen k"
    by (auto simp: session_get_def split: if_splits)
  with assms obtain row where "find (\<lambda>r. key r = word_of_int k) (todoitem db) = Some row"
    and i: "item = load row"
    by (auto simp: session_get_def)
  then have "key row = word_of_int k" by (auto simp: find_Some_iff)
  with r i show ?thesis by (simp add: item_id_load_iff [where gen = gen])
qed

lemma delete_todo_rows:
  "todoitem (snd (delete_todo gen k db))
     = filter (\<lambda>r. item_id (load r) \<noteq> Some k) (todoitem db)"
proof (cases "session_get gen db k")
  case (Inl e)
  then have "\<not> in_range gen k" by (auto simp: session_get_def split: if_splits)
  then have "Some k \<notin> set (ids db)" by (simp add: ids_iff [where gen = gen])
  then have "filter (\<lambda>r. item_id (load r) \<noteq> Some k) (todoitem db) = todoitem db"
    by (force simp: ids_def filter_id_conv)
  with Inl show ?thesis by (simp add: delete_todo_def)
next
  case (Inr found)
  show ?thesis
  proof (cases found)
    case None
    with Inr have "Some k \<notin> set (ids db)"
      by (auto simp: session_get_cases split: if_splits)
    then have "filter (\<lambda>r. item_id (load r) \<noteq> Some k) (todoitem db) = todoitem db"
      by (force simp: ids_def filter_id_conv)
    with Inr None show ?thesis by (simp add: delete_todo_def)
  next
    case (Some item)
    with Inr have "item_id item = Some k" by (simp add: session_get_item_id)
    with Inr Some show ?thesis by (simp add: delete_todo_def session_delete_commit_def)
  qed
qed

lemma delete_todo_sequence: "sequence (snd (delete_todo gen k db)) = sequence db"
  by (cases "session_get gen db k")
     (auto simp: delete_todo_def session_delete_commit_def split: option.splits)

lemma delete_todo_fst:
  "fst (delete_todo gen k db) =
     (if \<not> in_range gen k then Inl DataError
      else if Some k \<in> set (ids db) then Inr [(''message'', ''Deleted successfully'')]
      else Inl (HTTPException 404 ''Item not found''))"
  by (simp add: delete_todo_def session_get_cases)

text \<open>
  The order of a listing is the engine's. With a scan by key, a table into which the row 5
  was inserted before the row 3 is listed as 3, 5; with a scan in insertion order, as 5, 3.
\<close>

lemma scan_order_example:
  "get_all_todos ((counter :: (64, 64 word) engine)\<lparr>scan_key := (\<lambda>r. sint (key r))\<rparr>)
      \<lparr>todoitem = [\<lparr>key = 5, row_title = ''a'', row_is_done = False\<rparr>,
                   \<lparr>key = 3, row_title = ''b'', row_is_done = False\<rparr>], sequence = 0\<rparr>
     = [\<lparr>item_id = Some 3, title = ''b'', is_done = False\<rparr>,
        \<lparr>item_id = Some 5, title = ''a'', is_done = False\<rparr>]
   \<and> get_all_todos (counter :: (64, 64 word) engine)
      \<lparr>todoitem = [\<lparr>key = 5, row_title = ''a'', row_is_done = False\<rparr>,
                   \<lparr>key = 3, row_title = ''b'', row_is_done = False\<rparr>], sequence = 0\<rparr>
     = [\<lparr>item_id = Some 5, title = ''a'', is_done = False\<rparr>,
        \<lparr>item_id = Some 3, title = ''b'', is_done = False\<rparr>]"
  by (simp add: model_defs)

lemma client_key_taken_iff:
  "in_range gen c \<Longrightarrow>
   word_of_int c \<in> key ` set (todoitem db) \<longleftrightarrow> Some c \<in> set (ids db)"
  for gen :: "('w::len, 'g) engine" and db :: "('w, 'g) database"
  using ids_iff [where gen = gen and db = db and k = c] by simp

lemma generated_key_taken_iff:
  "k \<in> key ` set (todoitem db) \<longleftrightarrow> Some (sint k) \<in> set (ids db)"
  for db :: "('w::len, 'g) database" and k :: "'w word"
proof -
  fix gen :: "('w, 'g) engine"
  show ?thesis
    using ids_iff [where gen = gen and db = db and k = "sint k"] in_range_sint [of gen k]
    by simp
qed

lemma load_client_key:
  "in_range (gen :: ('w::len, 'g) engine) c \<Longrightarrow>
   load \<lparr>key = (word_of_int c :: 'w word), row_title = t, row_is_done = d\<rparr>
     = \<lparr>item_id = Some c, title = t, is_done = d\<rparr>"
  by (simp add: load_def sint_word_of_int_in_range [of gen c])

lemma add_todo_accepted:
  assumes "n_title item = Some t"
    and "k = (case n_id item of Some c \<Rightarrow> c
              | None \<Rightarrow> sint (fst (generate gen (sequence db) (todoitem db))))"
    and "in_range gen k"
    and "Some k \<notin> set (ids db)"
  shows "fst (add_todo gen item db)
           = Inr \<lparr>item_id = Some k, title = t, is_done = n_is_done item\<rparr>"
    and "\<exists>r. load r = \<lparr>item_id = Some k, title = t, is_done = n_is_done item\<rparr>
           \<and> todoitem (snd (add_todo gen item db)) = todoitem db @ [r]"
proof -
  show "fst (add_todo gen item db)
           = Inr \<lparr>item_id = Some k, title = t, is_done = n_is_done item\<rparr>"
  proof (cases "n_id item")
    case None
    with assms show ?thesis
      by (simp add: add_todo_def session_add_commit_def Let_def split_beta
            generated_key_taken_iff load_def)
  next
    case (Some c)
    with assms show ?thesis
      by (simp add: add_todo_def session_add_commit_def Let_def
            client_key_taken_iff load_client_key [of gen])
  qed
  show "\<exists>r. load r = \<lparr>item_id = Some k, title = t, is_done = n_is_done item\<rparr>
           \<and> todoitem (snd (add_todo gen item db)) = todoitem db @ [r]"
  proof (cases "n_id item")
    case None
    with assms show ?thesis
      by (simp add: add_todo_def session_add_commit_def Let_def split_beta
            generated_key_taken_iff load_def)
  next
    case (Some c)
    with assms show ?thesis
      by (simp add: add_todo_def session_add_commit_def Let_def
            client_key_taken_iff load_client_key [of gen])
  qed
qed

lemma add_todo_rejected:
  assumes "k = (case n_id item of Some c \<Rightarrow> c
              | None \<Rightarrow> sint (fst (generate gen (sequence db) (todoitem db))))"
    and "n_title item = None \<or> \<not> in_range gen k \<or> Some k \<in> set (ids db)"
  shows "isl (fst (add_todo gen item db))"
    and "todoitem (snd (add_todo gen item db)) = todoitem db"
proof -
  show "isl (fst (add_todo gen item db))"
  proof (cases "n_id item")
    case None
    with assms in_range_sint [of gen "fst (generate gen (sequence db) (todoitem db))"]
    show ?thesis
      by (auto simp: add_todo_def session_add_commit_def Let_def split_beta
            generated_key_taken_iff split: option.splits)
  next
    case (Some c)
    with assms show ?thesis
      by (auto simp: add_todo_def session_add_commit_def Let_def
            client_key_taken_iff split: option.splits)
  qed
  show "todoitem (snd (add_todo gen item db)) = todoitem db"
  proof (cases "n_id item")
    case None
    with assms in_range_sint [of gen "fst (generate gen (sequence db) (todoitem db))"]
    show ?thesis
      by (auto simp: add_todo_def session_add_commit_def Let_def split_beta
            generated_key_taken_iff split: option.splits)
  next
    case (Some c)
    with assms show ?thesis
      by (auto simp: add_todo_def session_add_commit_def Let_def
            client_key_taken_iff split: option.splits)
  qed
qed

lemma error_response_not_Task: "error_response e \<noteq> (code, Task t)"
  by (cases e) auto

lemma n_title_construct: "n_title (construct p) = p_title p"
  and n_id_construct: "n_id (construct p) = p_id p"
  and n_is_done_construct:
    "n_is_done (construct p) = (case p_is_done p of None \<Rightarrow> False | Some b \<Rightarrow> b)"
  by (simp_all add: construct_def)

text \<open>A creation that is answered with a Task.\<close>

lemma app_POST_created:
  assumes "app gen (POST_todos p) db = ((code, Task created), db')"
  shows "code = 200"
    and "\<exists>r. load r = created \<and> todoitem db' = todoitem db @ [r]"
    and "item_id created \<noteq> None"
    and "item_id created \<notin> set (ids db)"
    and "is_done created = (case p_is_done p of None \<Rightarrow> False | Some b \<Rightarrow> b)"
    and "p_title p = Some (title created)"
proof -
  let ?k = "case n_id (construct p) of Some c \<Rightarrow> c
              | None \<Rightarrow> sint (fst (generate gen (sequence db) (todoitem db)))"
  obtain res d where a: "add_todo gen (construct p) db = (res, d)" by fastforce
  with assms have r: "res = Inr created" "d = db'" and c: "code = 200"
    by (auto simp: error_response_not_Task split: sum.splits)
  have acc: "\<not> (n_title (construct p) = None \<or> \<not> in_range gen ?k \<or> Some ?k \<in> set (ids db))"
  proof
    assume "n_title (construct p) = None \<or> \<not> in_range gen ?k \<or> Some ?k \<in> set (ids db)"
    from add_todo_rejected(1) [OF refl this] a r show False by simp
  qed
  then obtain t where t: "n_title (construct p) = Some t" by auto
  from acc have rng: "in_range gen ?k" and free: "Some ?k \<notin> set (ids db)" by simp_all
  from add_todo_accepted [OF t refl rng free] a r
  have cr: "created = \<lparr>item_id = Some ?k, title = t, is_done = n_is_done (construct p)\<rparr>"
    and rows: "\<exists>r. load r = \<lparr>item_id = Some ?k, title = t, is_done = n_is_done (construct p)\<rparr>
           \<and> todoitem db' = todoitem db @ [r]"
    by simp_all
  show "code = 200" by (rule c)
  from cr rows show "\<exists>r. load r = created \<and> todoitem db' = todoitem db @ [r]" by simp
  from cr show "item_id created \<noteq> None" by simp
  from cr free show "item_id created \<notin> set (ids db)" by simp
  from cr show "is_done created = (case p_is_done p of None \<Rightarrow> False | Some b \<Rightarrow> b)"
    by (simp add: n_is_done_construct)
  from cr t show "p_title p = Some (title created)" by (simp add: n_title_construct)
qed

lemma is_created_cases:
  assumes "is_created (fst (app gen r db))"
  obtains created db' where "app gen r db = ((200, Task created), db')"
proof -
  obtain code c db' where a: "app gen r db = ((code, c), db')"
    by (metis prod.exhaust)
  with assms obtain created where "c = Task created" and "code = 200"
    by (cases c) auto
  with a that show thesis by simp
qed

lemma app_POST_not_created:
  assumes "\<not> is_created (fst (app gen (POST_todos p) db))"
  shows "todoitem (snd (app gen (POST_todos p) db)) = todoitem db"
proof -
  let ?k = "case n_id (construct p) of Some c \<Rightarrow> c
              | None \<Rightarrow> sint (fst (generate gen (sequence db) (todoitem db)))"
  obtain res d where a: "add_todo gen (construct p) db = (res, d)" by fastforce
  show ?thesis
  proof (cases res)
    case (Inl e)
    have "\<not> (\<exists>t. n_title (construct p) = Some t \<and> in_range gen ?k \<and> Some ?k \<notin> set (ids db))"
    proof
      assume "\<exists>t. n_title (construct p) = Some t \<and> in_range gen ?k \<and> Some ?k \<notin> set (ids db)"
      then obtain t where "n_title (construct p) = Some t" "in_range gen ?k"
        "Some ?k \<notin> set (ids db)" by blast
      from add_todo_accepted(1) [OF this(1) refl this(2,3)] a Inl show False by simp
    qed
    then have "n_title (construct p) = None \<or> \<not> in_range gen ?k \<or> Some ?k \<in> set (ids db)"
      by auto
    from add_todo_rejected(2) [OF refl this] a Inl show ?thesis by simp
  next
    case (Inr t)
    with a assms show ?thesis by simp
  qed
qed

lemma app_GET_rows: "todoitem (snd (app gen GET_todos db)) = todoitem db"
  by simp

lemma app_DELETE_rows:
  "todoitem (snd (app gen (DELETE_todos k) db))
     = filter (\<lambda>r. item_id (load r) \<noteq> Some k) (todoitem db)"
proof -
  have "snd (app gen (DELETE_todos k) db) = snd (delete_todo gen k db)"
    by (auto split: prod.splits sum.splits)
  then show ?thesis by (simp add: delete_todo_rows)
qed

lemma app_DELETE_fst:
  "fst (app gen (DELETE_todos k) db) =
     (if \<not> in_range gen k then (500, InternalServerError)
      else if Some k \<in> set (ids db)
      then (200, Object [(''message'', ''Deleted successfully'')])
      else (404, Object [(''detail'', ''Item not found'')]))"
proof -
  obtain res d where a: "delete_todo gen k db = (res, d)" by fastforce
  then have "fst (delete_todo gen k db) = res" by simp
  then have "res = (if \<not> in_range gen k then Inl DataError
      else if Some k \<in> set (ids db) then Inr [(''message'', ''Deleted successfully'')]
      else Inl (HTTPException 404 ''Item not found''))"
    by (simp add: delete_todo_fst)
  with a show ?thesis by simp
qed

lemma ids_append: "todoitem db' = todoitem db @ [r] \<Longrightarrow> ids db' = ids db @ [item_id (load r)]"
  by (simp add: ids_def)

lemma ids_filter:
  "todoitem db' = filter (\<lambda>r. item_id (load r) \<noteq> x) (todoitem db)
   \<Longrightarrow> ids db' = filter (\<lambda>i. i \<noteq> x) (ids db)"
  by (simp add: ids_def filter_map comp_def)

lemma ids_cong: "todoitem db' = todoitem db \<Longrightarrow> ids db' = ids db"
  by (simp add: ids_def)

lemma ids_in_range: "Some k \<in> set (ids db) \<Longrightarrow> in_range gen k"
  for gen :: "('w::len, 'g) engine" and db :: "('w, 'g) database"
  by (simp add: ids_iff [where gen = gen])

lemma app_POST_no_title:
  assumes "p_title p = None"
  shows "fst (app gen (POST_todos p) db) = (500, InternalServerError)"
    and "todoitem (snd (app gen (POST_todos p) db)) = todoitem db"
proof -
  obtain res d where a: "add_todo gen (construct p) db = (res, d)" by fastforce
  from assms have "res = Inl IntegrityError \<or> res = Inl DataError"
    using a
    by (auto simp: add_todo_def session_add_commit_def construct_def Let_def split_beta
          split: option.splits if_splits)
  with a show "fst (app gen (POST_todos p) db) = (500, InternalServerError)" by auto
  then have "\<not> is_created (fst (app gen (POST_todos p) db))" by simp
  then show "todoitem (snd (app gen (POST_todos p) db)) = todoitem db"
    by (rule app_POST_not_created)
qed

subsection \<open>Invariants of a run\<close>

lemma app_ids:
  "(\<not> is_created (fst (app gen r db)) \<and> \<not> is_DELETE r \<and> ids (snd (app gen r db)) = ids db)
   \<or> (\<exists>created db'. app gen r db = ((200, Task created), db')
         \<and> item_id created \<noteq> None \<and> item_id created \<notin> set (ids db)
         \<and> ids db' = ids db @ [item_id created]
         \<and> set (get_all_todos gen db') = insert created (set (get_all_todos gen db)))
   \<or> (\<exists>k. r = DELETE_todos k \<and> ids (snd (app gen r db)) = filter (\<lambda>i. i \<noteq> Some k) (ids db))"
proof (cases r)
  case GET_todos
  then show ?thesis by (simp add: ids_def)
next
  case (DELETE_todos k)
  have "ids (snd (app gen (DELETE_todos k) db)) = filter (\<lambda>i. i \<noteq> Some k) (ids db)"
    by (rule ids_filter) (rule app_DELETE_rows)
  with DELETE_todos show ?thesis by blast
next
  case (POST_todos p)
  show ?thesis
  proof (cases "is_created (fst (app gen r db))")
    case False
    with POST_todos have "todoitem (snd (app gen r db)) = todoitem db"
      by (simp add: app_POST_not_created del: app.simps)
    then have "ids (snd (app gen r db)) = ids db" by (rule ids_cong)
    with False POST_todos show ?thesis by simp
  next
    case True
    then obtain created db' where a: "app gen r db = ((200, Task created), db')"
      by (rule is_created_cases)
    then have a': "app gen (POST_todos p) db = ((200, Task created), db')"
      by (simp only: POST_todos)
    from app_POST_created(2) [OF a'] obtain row
      where row: "load row = created" "todoitem db' = todoitem db @ [row]" by blast
    from row have i: "ids db' = ids db @ [item_id created]"
      by (simp add: ids_def)
    from row have "set (get_all_todos gen db') = insert created (set (get_all_todos gen db))"
      by (simp add: set_get_all_todos)
    with a i app_POST_created(3,4) [OF a'] show ?thesis by blast
  qed
qed

lemma app_primary_key:
  assumes "primary_key db"
  shows "primary_key (snd (app gen r db))"
  using app_ids [of gen r db] assms
  by (auto simp: primary_key_def)

lemma serve_primary_key:
  "primary_key db \<Longrightarrow> primary_key (snd (serve gen rs db))"
proof (induction rs arbitrary: db)
  case Nil
  then show ?case by simp
next
  case (Cons r rs)
  from Cons.prems have "primary_key (snd (app gen r db))" by (rule app_primary_key)
  then have "primary_key (snd (serve gen rs (snd (app gen r db))))" by (rule Cons.IH)
  then show ?case by (simp add: split_beta Let_def del: app.simps)
qed

lemma app_absent:
  assumes "Some k \<notin> set (ids db)" and "created_id (fst (app gen r db)) \<noteq> Some k"
  shows "Some k \<notin> set (ids (snd (app gen r db)))"
  using app_ids [of gen r db] assms
  by auto

lemma serve_absent:
  "Some k \<notin> set (ids db) \<Longrightarrow> Some k \<notin> created_id ` set (fst (serve gen rs db))
   \<Longrightarrow> Some k \<notin> set (ids (snd (serve gen rs db)))"
proof (induction rs arbitrary: db)
  case Nil
  then show ?case by simp
next
  case (Cons r rs)
  from Cons.prems(2) have c: "created_id (fst (app gen r db)) \<noteq> Some k"
    and rest: "Some k \<notin> created_id ` set (fst (serve gen rs (snd (app gen r db))))"
    by (auto simp: split_beta Let_def simp del: app.simps)
  from Cons.prems(1) c have "Some k \<notin> set (ids (snd (app gen r db)))" by (rule app_absent)
  from Cons.IH [OF this rest] show ?case by (simp add: split_beta Let_def del: app.simps)
qed

lemma length_ids: "length (ids db) = length (todoitem db)"
  by (simp add: ids_def)

lemma app_no_delete_length:
  assumes "\<not> is_DELETE r"
  shows "length (todoitem (snd (app gen r db)))
      = length (todoitem db) + (if is_created (fst (app gen r db)) then 1 else 0)"
proof -
  from app_ids [of gen r db] assms
  have "length (ids (snd (app gen r db)))
      = length (ids db) + (if is_created (fst (app gen r db)) then 1 else 0)"
    by auto
  then show ?thesis by (simp only: length_ids)
qed

lemma serve_creations:
  "\<forall>r \<in> set rs. \<not> is_DELETE r \<Longrightarrow>
   length (todoitem (snd (serve gen rs db)))
     = length (todoitem db) + length (filter is_created (fst (serve gen rs db)))"
proof (induction rs arbitrary: db)
  case Nil
  then show ?case by simp
next
  case (Cons r rs)
  let ?db = "snd (app gen r db)"
  from Cons.prems have "\<not> is_DELETE r" by simp
  then have step: "length (todoitem ?db)
      = length (todoitem db) + (if is_created (fst (app gen r db)) then 1 else 0)"
    by (rule app_no_delete_length)
  from Cons.prems have "\<forall>r \<in> set rs. \<not> is_DELETE r" by simp
  from Cons.IH [OF this, of ?db] step show ?case
    by (simp add: split_beta Let_def del: app.simps)
qed

lemma length_filter_distinct:
  "distinct (map f xs) \<Longrightarrow> x \<in> f ` set xs \<Longrightarrow>
   length (filter (\<lambda>r. f r \<noteq> x) xs) + 1 = length xs"
proof (induction xs)
  case Nil
  then show ?case by simp
next
  case (Cons a xs)
  show ?case
  proof (cases "f a = x")
    case True
    with Cons.prems have "x \<notin> f ` set xs" by auto
    then have "filter (\<lambda>r. f r \<noteq> x) xs = xs" by (auto simp: filter_id_conv)
    with True show ?thesis by simp
  next
    case False
    with Cons show ?thesis by auto
  qed
qed

lemma app_rows_origin:
  "set (get_all_todos gen (snd (app gen r db)))
     \<subseteq> set (get_all_todos gen db) \<union> {t. fst (app gen r db) = (200, Task t)}"
proof (cases r)
  case GET_todos
  then show ?thesis by simp
next
  case (POST_todos p)
  show ?thesis
  proof (cases "is_created (fst (app gen r db))")
    case False
    with POST_todos have "todoitem (snd (app gen r db)) = todoitem db"
      by (simp add: app_POST_not_created del: app.simps)
    then show ?thesis by (simp add: set_get_all_todos del: app.simps)
  next
    case True
    then obtain created db' where a: "app gen r db = ((200, Task created), db')"
      by (rule is_created_cases)
    then have a': "app gen (POST_todos p) db = ((200, Task created), db')"
      by (simp only: POST_todos)
    from app_POST_created(2) [OF a'] a show ?thesis
      by (auto simp: set_get_all_todos simp del: app.simps)
  qed
next
  case (DELETE_todos k)
  then show ?thesis
    by (auto simp: set_get_all_todos app_DELETE_rows simp del: app.simps)
qed

lemma serve_rows_origin:
  "set (get_all_todos gen (snd (serve gen rs db)))
     \<subseteq> set (get_all_todos gen db) \<union> {t. (200, Task t) \<in> set (fst (serve gen rs db))}"
proof (induction rs arbitrary: db)
  case Nil
  then show ?case by simp
next
  case (Cons r rs)
  let ?db = "snd (app gen r db)"
  have 1: "set (get_all_todos gen (snd (serve gen rs ?db)))
     \<subseteq> set (get_all_todos gen ?db) \<union> {t. (200, Task t) \<in> set (fst (serve gen rs ?db))}"
    by (rule Cons.IH)
  have 2: "set (get_all_todos gen ?db)
     \<subseteq> set (get_all_todos gen db) \<union> {t. fst (app gen r db) = (200, Task t)}"
    by (rule app_rows_origin)
  have 3: "snd (serve gen (r # rs) db) = snd (serve gen rs ?db)"
    and 4: "fst (serve gen (r # rs) db) = fst (app gen r db) # fst (serve gen rs ?db)"
    by (simp_all add: split_beta Let_def del: app.simps)
  from 1 2 show ?case unfolding 3 4 by auto
qed

section \<open>Claims\<close>

text \<open>
  C1, as stated, fails: on a fresh table the request \<^verbatim>\<open>{"id": 7, "title": "a"}\<close> is
  answered with the Task of \<open>id\<close> 7, the \<open>id\<close> the client sent, while the same
  request without \<open>id\<close> is answered with the \<open>id\<close> the store generates (1 with a
  sequence that stands at 0). The \<open>id\<close> of the payload is not ignored.
\<close>

theorem add_todo_keeps_client_id_counterexample:
  "fst (app (counter :: (32, 32 word) engine)
          (POST_todos \<lparr>p_id = Some 7, p_title = Some ''a'', p_is_done = None\<rparr>) (create_all 0))
     = (200, Task \<lparr>item_id = Some 7, title = ''a'', is_done = False\<rparr>)
   \<and> fst (app (counter :: (32, 32 word) engine)
          (POST_todos \<lparr>p_id = None, p_title = Some ''a'', p_is_done = None\<rparr>) (create_all 0))
     = (200, Task \<lparr>item_id = Some 1, title = ''a'', is_done = False\<rparr>)"
  by (simp add: model_defs)

text \<open>
  C1, amended. For every creation request that carries a title, the \<open>id\<close> of the Task is
  the \<open>id\<close> of the payload when it has one, and the \<open>id\<close> the store generates
  otherwise. When that \<open>id\<close> is in the range of the key column and no row of the store
  has it, the response is the Task with this non-null \<open>id\<close>, and the listing afterwards
  has the records of the listing before and the new Task (as a multiset: the place of the
  new record in the listing is the store's choice). Otherwise no Task is returned and the
  listing is unchanged. So a returned Task always carries a non-null \<open>id\<close> that differs
  from the \<open>id\<close> of every row in the store at the time of the call.
\<close>

theorem add_todo_id:
  assumes "p_title p = Some t"
    and "k = (case p_id p of Some c \<Rightarrow> c
              | None \<Rightarrow> sint (fst (generate gen (sequence db) (todoitem db))))"
  shows "if in_range gen k \<and> (\<forall>row \<in> set (get_all_todos gen db). item_id row \<noteq> Some k)
         then fst (app gen (POST_todos p) db)
                = (200, Task \<lparr>item_id = Some k, title = t,
                     is_done = (case p_is_done p of None \<Rightarrow> False | Some b \<Rightarrow> b)\<rparr>)
              \<and> mset (get_all_todos gen (snd (app gen (POST_todos p) db)))
                = add_mset \<lparr>item_id = Some k, title = t,
                     is_done = (case p_is_done p of None \<Rightarrow> False | Some b \<Rightarrow> b)\<rparr>
                    (mset (get_all_todos gen db))
         else \<not> is_created (fst (app gen (POST_todos p) db))
              \<and> get_all_todos gen (snd (app gen (POST_todos p) db)) = get_all_todos gen db"
proof -
  let ?T = "\<lparr>item_id = Some k, title = t,
              is_done = (case p_is_done p of None \<Rightarrow> False | Some b \<Rightarrow> b)\<rparr>"
  have t: "n_title (construct p) = Some t" using assms(1) by (simp add: n_title_construct)
  have k: "k = (case n_id (construct p) of Some c \<Rightarrow> c
              | None \<Rightarrow> sint (fst (generate gen (sequence db) (todoitem db))))"
    using assms(2) by (simp add: n_id_construct)
  obtain res d where a: "add_todo gen (construct p) db = (res, d)" by fastforce
  show ?thesis
  proof (cases "in_range gen k \<and> (\<forall>row \<in> set (get_all_todos gen db). item_id row \<noteq> Some k)")
    case True
    then have rng: "in_range gen k" and free: "Some k \<notin> set (ids db)"
      using no_row_iff [of gen db k] by blast+
    from add_todo_accepted [OF t k rng free] a
    have res: "res = Inr ?T"
      and "\<exists>r. load r = ?T \<and> todoitem d = todoitem db @ [r]"
      by (simp_all add: n_is_done_construct)
    then obtain r where r: "load r = ?T" "todoitem d = todoitem db @ [r]" by blast
    from a res have 1: "app gen (POST_todos p) db = ((200, Task ?T), d)" by simp
    from r have "mset (get_all_todos gen d) = add_mset ?T (mset (get_all_todos gen db))"
      by (simp add: mset_get_all_todos)
    with 1 True show ?thesis by (simp del: app.simps)
  next
    case False
    then have "n_title (construct p) = None \<or> \<not> in_range gen k \<or> Some k \<in> set (ids db)"
      using no_row_iff [of gen db k] by blast
    from add_todo_rejected [OF k this] a
    have "isl res" and rows: "todoitem d = todoitem db" by simp_all
    then obtain e where "res = Inl e" by (cases res) auto
    with a have 1: "app gen (POST_todos p) db = (error_response e, d)" by simp
    have "\<not> is_created (error_response e)" by (cases e) simp_all
    moreover from rows have "get_all_todos gen d = get_all_todos gen db"
      by (rule get_all_todos_cong)
    ultimately show ?thesis using 1 False by (simp del: app.simps)
  qed
qed

text \<open>
  C1 on a table with 32-bit keys that holds the row 7: a request without \<open>id\<close> gets the
  generated key 1, a request with \<open>id\<close> 9 keeps 9, and a request with the \<open>id\<close> 7,
  which is taken, or 2147483648, which the key column cannot hold, leaves the listing as
  it is.
\<close>

theorem add_todo_id_witness:
  "fst (app (counter :: (32, 32 word) engine)
          (POST_todos \<lparr>p_id = None, p_title = Some ''a'', p_is_done = None\<rparr>)
          \<lparr>todoitem = [\<lparr>key = 7, row_title = ''b'', row_is_done = True\<rparr>], sequence = 0\<rparr>)
     = (200, Task \<lparr>item_id = Some 1, title = ''a'', is_done = False\<rparr>)
   \<and> fst (app (counter :: (32, 32 word) engine)
          (POST_todos \<lparr>p_id = Some 9, p_title = Some ''a'', p_is_done = Some True\<rparr>)
          \<lparr>todoitem = [\<lparr>key = 7, row_title = ''b'', row_is_done = True\<rparr>], sequence = 0\<rparr>)
     = (200, Task \<lparr>item_id = Some 9, title = ''a'', is_done = True\<rparr>)
   \<and> get_all_todos (counter :: (32, 32 word) engine) (snd (app counter
          (POST_todos \<lparr>p_id = Some 7, p_title = Some ''a'', p_is_done = None\<rparr>)
          \<lparr>todoitem = [\<lparr>key = 7, row_title = ''b'', row_is_done = True\<rparr>], sequence = 0\<rparr>))
     = [\<lparr>item_id = Some 7, title = ''b'', is_done = True\<rparr>]
   \<and> get_all_todos (counter :: (32, 32 word) engine) (snd (app counter
          (POST_todos \<lparr>p_id = Some 2147483648, p_title = Some ''a'', p_is_done = None\<rparr>)
          \<lparr>todoitem = [\<lparr>key = 7, row_title = ''b'', row_is_done = True\<rparr>], sequence = 0\<rparr>))
     = [\<lparr>item_id = Some 7, title = ''b'', is_done = True\<rparr>]"
proof -
  let ?gen = "counter :: (32, 32 word) engine"
  let ?db = "\<lparr>todoitem = [\<lparr>key = 7, row_title = ''b'', row_is_done = True\<rparr>],
              sequence = 0\<rparr> :: (32, 32 word) database"
  let ?p1 = "\<lparr>p_id = None, p_title = Some ''a'', p_is_done = None\<rparr>"
  let ?p2 = "\<lparr>p_id = Some 9, p_title = Some ''a'', p_is_done = Some True\<rparr>"
  let ?p3 = "\<lparr>p_id = Some 7, p_title = Some ''a'', p_is_done = None\<rparr>"
  let ?p4 = "\<lparr>p_id = Some 2147483648, p_title = Some ''a'', p_is_done = None\<rparr>"
  have t1: "p_title ?p1 = Some ''a''" and t2: "p_title ?p2 = Some ''a''"
    and t3: "p_title ?p3 = Some ''a''" and t4: "p_title ?p4 = Some ''a''" by simp_all
  have k1: "1 = (case p_id ?p1 of Some c \<Rightarrow> c
      | None \<Rightarrow> sint (fst (generate ?gen (sequence ?db) (todoitem ?db))))"
    by (simp add: counter_def)
  have k2: "9 = (case p_id ?p2 of Some c \<Rightarrow> c
      | None \<Rightarrow> sint (fst (generate ?gen (sequence ?db) (todoitem ?db))))"
    by simp
  have k3: "7 = (case p_id ?p3 of Some c \<Rightarrow> c
      | None \<Rightarrow> sint (fst (generate ?gen (sequence ?db) (todoitem ?db))))"
    by simp
  have k4: "2147483648 = (case p_id ?p4 of Some c \<Rightarrow> c
      | None \<Rightarrow> sint (fst (generate ?gen (sequence ?db) (todoitem ?db))))"
    by simp
  have rows: "get_all_todos ?gen ?db = [\<lparr>item_id = Some 7, title = ''b'', is_done = True\<rparr>]"
    by (simp add: model_defs)
  have r1: "in_range ?gen 1" and r2: "in_range ?gen 9" and r3: "in_range ?gen 7"
    and r4: "\<not> in_range ?gen 2147483648"
    by (simp_all add: in_range_def)
  from add_todo_id [where p = ?p1 and gen = ?gen and db = ?db and k = 1, OF t1 k1]
    add_todo_id [where p = ?p2 and gen = ?gen and db = ?db and k = 9, OF t2 k2]
    add_todo_id [where p = ?p3 and gen = ?gen and db = ?db and k = 7, OF t3 k3]
    add_todo_id [where p = ?p4 and gen = ?gen and db = ?db and k = 2147483648, OF t4 k4]
  show ?thesis
    unfolding rows using r1 r2 r3 r4 by (simp del: app.simps)
qed

text \<open>
  C2, as stated, fails: an integer that the key column cannot hold has no row, but the
  lookup raises when the integer is bound to the statement, and the answer is 500, not
  404. With 32-bit keys \<^verbatim>\<open>DELETE /todos/2147483648\<close> is such a request, with 64-bit
  keys \<^verbatim>\<open>DELETE /todos/9223372036854775808\<close>.
\<close>

theorem delete_out_of_range_counterexample:
  "app (counter :: (32, 32 word) engine) (DELETE_todos 2147483648) (create_all 0)
     = ((500, InternalServerError), create_all 0)
   \<and> app (counter :: (64, 64 word) engine) (DELETE_todos 9223372036854775808) (create_all 0)
     = ((500, InternalServerError), create_all 0)"
  by (simp add: model_defs)

text \<open>
  C2, amended. For every store state and every integer \<open>todo_id\<close> that no row has, a
  listing after \<^verbatim>\<open>DELETE /todos/{todo_id}\<close> equals the listing before it. When
  \<open>todo_id\<close> is in the range of the key column, the handler raises
  \<^verbatim>\<open>HTTPException(404, "Item not found")\<close>, which is answered with status 404 and body
  \<^verbatim>\<open>{"detail": "Item not found"}\<close>, and the store is unchanged.
\<close>

theorem delete_missing:
  assumes "\<forall>row \<in> set (get_all_todos gen db). item_id row \<noteq> Some todo_id"
  shows "get_all_todos gen (snd (app gen (DELETE_todos todo_id) db)) = get_all_todos gen db
       \<and> (in_range gen todo_id \<longrightarrow>
            delete_todo gen todo_id db = (Inl (HTTPException 404 ''Item not found''), db)
            \<and> app gen (DELETE_todos todo_id) db
                = ((404, Object [(''detail'', ''Item not found'')]), db)
            \<and> fst (app gen GET_todos (snd (app gen (DELETE_todos todo_id) db)))
                = fst (app gen GET_todos db))"
proof (intro conjI impI)
  from assms have absent: "Some todo_id \<notin> set (ids db)" by (rule iffD1 [OF no_row_iff])
  then have "filter (\<lambda>r. item_id (load r) \<noteq> Some todo_id) (todoitem db) = todoitem db"
    by (force simp: ids_def filter_id_conv)
  then have "todoitem (snd (app gen (DELETE_todos todo_id) db)) = todoitem db"
    by (simp add: app_DELETE_rows del: app.simps)
  then show "get_all_todos gen (snd (app gen (DELETE_todos todo_id) db)) = get_all_todos gen db"
    by (rule get_all_todos_cong)
  assume "in_range gen todo_id"
  with absent have "session_get gen db todo_id = Inr None"
    by (simp add: session_get_cases)
  then show d: "delete_todo gen todo_id db = (Inl (HTTPException 404 ''Item not found''), db)"
    by (simp add: delete_todo_def)
  then show a: "app gen (DELETE_todos todo_id) db
      = ((404, Object [(''detail'', ''Item not found'')]), db)"
    by simp
  then show "fst (app gen GET_todos (snd (app gen (DELETE_todos todo_id) db)))
      = fst (app gen GET_todos db)"
    by simp
qed

text \<open>C2 on a table with 64-bit keys that holds the row 1, for the \<open>id\<close> 999999.\<close>

theorem delete_missing_witness:
  "app (counter :: (64, 64 word) engine) (DELETE_todos 999999)
      \<lparr>todoitem = [\<lparr>key = 1, row_title = ''a'', row_is_done = False\<rparr>], sequence = 1\<rparr>
     = ((404, Object [(''detail'', ''Item not found'')]),
        \<lparr>todoitem = [\<lparr>key = 1, row_title = ''a'', row_is_done = False\<rparr>], sequence = 1\<rparr>)"
proof -
  let ?gen = "counter :: (64, 64 word) engine"
  let ?db = "\<lparr>todoitem = [\<lparr>key = 1, row_title = ''a'', row_is_done = False\<rparr>],
              sequence = 1\<rparr> :: (64, 64 word) database"
  have h: "\<forall>row \<in> set (get_all_todos ?gen ?db). item_id row \<noteq> Some 999999"
    by (simp add: model_defs)
  have r: "in_range ?gen 999999" by (simp add: in_range_def)
  from delete_missing [OF h] r show ?thesis by blast
qed

text \<open>
  C3, as stated, fails: a Task is created (the store assigns 1) and deleted, a second
  creation sends the \<open>id\<close> 1, and the listing after it has a row of the deleted
  \<open>id\<close> again. Deletion does not keep the \<open>id\<close> out of all later listings.
\<close>

theorem deleted_id_listed_again_counterexample:
  "fst (serve (counter :: (32, 32 word) engine)
     [POST_todos \<lparr>p_id = None, p_title = Some ''a'', p_is_done = None\<rparr>,
      DELETE_todos 1,
      POST_todos \<lparr>p_id = Some 1, p_title = Some ''a'', p_is_done = None\<rparr>,
      GET_todos]
     (create_all 0))
   = [(200, Task \<lparr>item_id = Some 1, title = ''a'', is_done = False\<rparr>),
      (200, Object [(''message'', ''Deleted successfully'')]),
      (200, Task \<lparr>item_id = Some 1, title = ''a'', is_done = False\<rparr>),
      (200, Tasks [\<lparr>item_id = Some 1, title = ''a'', is_done = False\<rparr>])]"
  by (simp add: model_defs)

text \<open>
  C3, amended. Let a creation be answered with a Task of \<open>id\<close> \<open>k\<close>. Then deleting
  \<open>k\<close> succeeds with \<^verbatim>\<open>{"message": "Deleted successfully"}\<close>, and the listing right
  after the deletion has no row of \<open>id\<close> \<open>k\<close>. After any further requests \<open>rs\<close>, a
  row of \<open>id\<close> \<open>k\<close> in the listing is a Task that a creation among \<open>rs\<close> was
  answered with. So when no creation among \<open>rs\<close> is answered with the \<open>id\<close> \<open>k\<close>,
  the listing has no row of \<open>id\<close> \<open>k\<close>, and a second deletion of \<open>k\<close> is answered
  with 404 \<^verbatim>\<open>{"detail": "Item not found"}\<close>. (\<open>rs\<close> may be empty: the second
  deletion then follows the first at once.)
\<close>

theorem delete_created:
  assumes "app gen (POST_todos p) db = ((200, Task created), db1)"
    and "item_id created = Some k"
    and "app gen (DELETE_todos k) db1 = (resp, db2)"
  shows "resp = (200, Object [(''message'', ''Deleted successfully'')])
       \<and> (\<forall>row \<in> set (get_all_todos gen db2). item_id row \<noteq> Some k)
       \<and> (\<forall>row \<in> set (get_all_todos gen (snd (serve gen rs db2))).
             item_id row = Some k \<longrightarrow> (200, Task row) \<in> set (fst (serve gen rs db2)))
       \<and> (Some k \<notin> created_id ` set (fst (serve gen rs db2)) \<longrightarrow>
             (\<forall>row \<in> set (get_all_todos gen (snd (serve gen rs db2))). item_id row \<noteq> Some k)
             \<and> fst (app gen (DELETE_todos k) (snd (serve gen rs db2)))
                 = (404, Object [(''detail'', ''Item not found'')]))"
proof -
  from app_POST_created(2) [OF assms(1)] assms(2) have present: "Some k \<in> set (ids db1)"
    by (auto simp: ids_def)
  then have rng: "in_range gen k" by (rule ids_in_range)
  with present have "fst (app gen (DELETE_todos k) db1)
      = (200, Object [(''message'', ''Deleted successfully'')])"
    by (simp add: app_DELETE_fst del: app.simps)
  with assms(3) have r: "resp = (200, Object [(''message'', ''Deleted successfully'')])"
    by (simp del: app.simps)
  have "todoitem (snd (app gen (DELETE_todos k) db1))
      = filter (\<lambda>r. item_id (load r) \<noteq> Some k) (todoitem db1)"
    by (rule app_DELETE_rows)
  with assms(3) have gone: "Some k \<notin> set (ids db2)"
    by (auto simp: ids_def simp del: app.simps)
  then have l0: "\<forall>row \<in> set (get_all_todos gen db2). item_id row \<noteq> Some k"
    by (rule iffD2 [OF no_row_iff])
  have origin: "\<forall>row \<in> set (get_all_todos gen (snd (serve gen rs db2))).
             item_id row = Some k \<longrightarrow> (200, Task row) \<in> set (fst (serve gen rs db2))"
  proof (intro ballI impI)
    fix row
    assume "row \<in> set (get_all_todos gen (snd (serve gen rs db2)))" and i: "item_id row = Some k"
    with serve_rows_origin [of gen rs db2]
    have "row \<in> set (get_all_todos gen db2) \<or> (200, Task row) \<in> set (fst (serve gen rs db2))"
      by auto
    with l0 i show "(200, Task row) \<in> set (fst (serve gen rs db2))" by auto
  qed
  have later: "(\<forall>row \<in> set (get_all_todos gen (snd (serve gen rs db2))). item_id row \<noteq> Some k)
             \<and> fst (app gen (DELETE_todos k) (snd (serve gen rs db2)))
                 = (404, Object [(''detail'', ''Item not found'')])"
    if "Some k \<notin> created_id ` set (fst (serve gen rs db2))"
  proof -
    from serve_absent [OF gone that]
    have g: "Some k \<notin> set (ids (snd (serve gen rs db2)))" .
    then have "\<forall>row \<in> set (get_all_todos gen (snd (serve gen rs db2))). item_id row \<noteq> Some k"
      by (rule iffD2 [OF no_row_iff])
    moreover from g rng have "fst (app gen (DELETE_todos k) (snd (serve gen rs db2)))
        = (404, Object [(''detail'', ''Item not found'')])"
      by (simp add: app_DELETE_fst del: app.simps)
    ultimately show ?thesis by blast
  qed
  from r l0 origin later show ?thesis by blast
qed

text \<open>
  C3 on a run: create (the store assigns 1), delete 1, then a listing and another creation
  (the store assigns 2), then delete 1 again.
\<close>

theorem delete_created_witness:
  "fst (app (counter :: (32, 32 word) engine) (DELETE_todos 1)
          \<lparr>todoitem = [\<lparr>key = 1, row_title = ''a'', row_is_done = False\<rparr>], sequence = 1\<rparr>)
      = (200, Object [(''message'', ''Deleted successfully'')])
   \<and> get_all_todos (counter :: (32, 32 word) engine) (snd (serve counter
        [GET_todos, POST_todos \<lparr>p_id = None, p_title = Some ''b'', p_is_done = None\<rparr>]
        \<lparr>todoitem = [], sequence = 1\<rparr>))
      = [\<lparr>item_id = Some 2, title = ''b'', is_done = False\<rparr>]
   \<and> fst (app (counter :: (32, 32 word) engine) (DELETE_todos 1) (snd (serve counter
        [GET_todos, POST_todos \<lparr>p_id = None, p_title = Some ''b'', p_is_done = None\<rparr>]
        \<lparr>todoitem = [], sequence = 1\<rparr>)))
      = (404, Object [(''detail'', ''Item not found'')])"
proof -
  let ?gen = "counter :: (32, 32 word) engine"
  let ?p = "\<lparr>p_id = None, p_title = Some ''a'', p_is_done = None\<rparr>"
  let ?created = "\<lparr>item_id = Some 1, title = ''a'', is_done = False\<rparr>"
  let ?db1 = "\<lparr>todoitem = [\<lparr>key = 1, row_title = ''a'', row_is_done = False\<rparr>],
               sequence = 1\<rparr> :: (32, 32 word) database"
  let ?db2 = "\<lparr>todoitem = [], sequence = 1\<rparr> :: (32, 32 word) database"
  let ?rs = "[GET_todos, POST_todos \<lparr>p_id = None, p_title = Some ''b'', p_is_done = None\<rparr>]"
  have 1: "app ?gen (POST_todos ?p) (create_all 0) = ((200, Task ?created), ?db1)"
    by (simp add: model_defs)
  have 2: "item_id ?created = Some 1" by simp
  have 3: "app ?gen (DELETE_todos 1) ?db1 = (fst (app ?gen (DELETE_todos 1) ?db1), ?db2)"
    by (simp add: model_defs)
  have run: "serve ?gen ?rs ?db2
      = ([(200, Tasks []), (200, Task \<lparr>item_id = Some 2, title = ''b'', is_done = False\<rparr>)],
         \<lparr>todoitem = [\<lparr>key = 2, row_title = ''b'', row_is_done = False\<rparr>], sequence = 2\<rparr>)"
    by (simp add: model_defs)
  have 4: "Some 1 \<notin> created_id ` set (fst (serve ?gen ?rs ?db2))"
    unfolding run by simp
  have l: "get_all_todos ?gen (snd (serve ?gen ?rs ?db2))
      = [\<lparr>item_id = Some 2, title = ''b'', is_done = False\<rparr>]"
    unfolding run by (simp add: model_defs)
  from delete_created [OF 1 2 3, of ?rs] 4 l show ?thesis
    by blast
qed

text \<open>
  C4. For every creation payload that omits \<open>is_done\<close> and is answered with a Task, the
  returned Task has \<open>is_done\<close> false, it is a record of the listing, and every record of
  the listing with its \<open>id\<close> has \<open>is_done\<close> false.
\<close>

theorem is_done_default:
  assumes "p_is_done p = None"
    and "app gen (POST_todos p) db = ((200, Task created), db')"
  shows "\<not> is_done created \<and> created \<in> set (get_all_todos gen db')
       \<and> (\<forall>row \<in> set (get_all_todos gen db'). item_id row = item_id created \<longrightarrow> \<not> is_done row)"
proof -
  from app_POST_created(5) [OF assms(2)] assms(1) have d: "\<not> is_done created" by simp
  from app_POST_created(2) [OF assms(2)] obtain r
    where r: "load r = created" "todoitem db' = todoitem db @ [r]" by blast
  from app_POST_created(4) [OF assms(2)]
  have fresh: "item_id created \<notin> set (ids db)" .
  from r have m: "created \<in> set (get_all_todos gen db')"
    by (simp add: set_get_all_todos)
  have "\<forall>row \<in> set (get_all_todos gen db'). item_id row = item_id created \<longrightarrow> \<not> is_done row"
  proof (intro ballI impI)
    fix row
    assume "row \<in> set (get_all_todos gen db')" and i: "item_id row = item_id created"
    with r have "row = created \<or> row \<in> load ` set (todoitem db)"
      by (auto simp: set_get_all_todos)
    moreover have "row \<in> load ` set (todoitem db) \<Longrightarrow> item_id row \<in> set (ids db)"
      by (auto simp: ids_def)
    ultimately have "row = created" using fresh i by metis
    with d show "\<not> is_done row" by simp
  qed
  with d m show ?thesis by blast
qed

text \<open>C4 for the payload \<^verbatim>\<open>{"title": "a"}\<close> on a fresh table.\<close>

theorem is_done_default_witness:
  "\<not> is_done \<lparr>item_id = Some 1, title = ''a'', is_done = False\<rparr>
   \<and> get_all_todos (counter :: (32, 32 word) engine)
        (snd (app counter (POST_todos \<lparr>p_id = None, p_title = Some ''a'', p_is_done = None\<rparr>)
        (create_all 0))) = [\<lparr>item_id = Some 1, title = ''a'', is_done = False\<rparr>]"
proof -
  let ?gen = "counter :: (32, 32 word) engine"
  let ?p = "\<lparr>p_id = None, p_title = Some ''a'', p_is_done = None\<rparr>"
  let ?created = "\<lparr>item_id = Some 1, title = ''a'', is_done = False\<rparr>"
  let ?db1 = "\<lparr>todoitem = [\<lparr>key = 1, row_title = ''a'', row_is_done = False\<rparr>],
               sequence = 1\<rparr> :: (32, 32 word) database"
  have 0: "p_is_done ?p = None" by simp
  have 1: "app ?gen (POST_todos ?p) (create_all 0) = ((200, Task ?created), ?db1)"
    by (simp add: model_defs)
  have l: "get_all_todos ?gen ?db1 = [?created]" by (simp add: model_defs)
  from is_done_default [OF 0 1] l show ?thesis
    unfolding 1 by simp
qed

text \<open>
  C5 says that a creation request without \<open>title\<close> is answered with the validation
  error 422 and has no side effect. The code does not do that. The item is constructed
  from the body without validation, the INSERT violates the NOT NULL constraint of
  \<open>title\<close>, and the exception, which no handler catches, is answered with 500; an
  engine that generates keys from a sequence has spent a key by then. (Lemma
  \<open>app_POST_no_title\<close> has the answer for every payload without title.) Here the request
  \<^verbatim>\<open>{}\<close> on a fresh table with a sequence at 0:
\<close>

theorem missing_title_answer:
  "app (counter :: (32, 32 word) engine)
      (POST_todos \<lparr>p_id = None, p_title = None, p_is_done = None\<rparr>) (create_all 0)
   = ((500, InternalServerError), \<lparr>todoitem = [], sequence = 1\<rparr>)"
  by (simp add: model_defs)

text \<open>
  C6. A listing of the empty table is the empty sequence. After any sequence of requests
  without a deletion, started on the empty table, the listing has exactly as many records
  as creations were answered with a Task. (The order of the records is not constrained by
  the statement: it only counts them.)
\<close>

theorem listing_count:
  "fst (app gen GET_todos (create_all g)) = (200, Tasks [])
   \<and> ((\<forall>r \<in> set rs. \<not> is_DELETE r) \<longrightarrow>
        length (get_all_todos gen (snd (serve gen rs (create_all g))))
          = length (filter is_created (fst (serve gen rs (create_all g)))))"
proof (intro conjI impI)
  show "fst (app gen GET_todos (create_all g)) = (200, Tasks [])"
    by (simp add: get_all_todos_def session_select_all_def create_all_def)
next
  assume "\<forall>r \<in> set rs. \<not> is_DELETE r"
  from serve_creations [OF this, of gen "create_all g"]
  show "length (get_all_todos gen (snd (serve gen rs (create_all g))))
          = length (filter is_created (fst (serve gen rs (create_all g))))"
    by (simp add: length_get_all_todos create_all_def)
qed

text \<open>
  C6 on five creation requests and a listing: one creation has no title, one repeats the
  \<open>id\<close> 1, three are answered with a Task; three records.
\<close>

theorem listing_count_witness:
  "length (get_all_todos (counter :: (32, 32 word) engine) (snd (serve counter
      [POST_todos \<lparr>p_id = None, p_title = Some ''a'', p_is_done = None\<rparr>,
       POST_todos \<lparr>p_id = None, p_title = None, p_is_done = None\<rparr>,
       GET_todos,
       POST_todos \<lparr>p_id = None, p_title = Some ''c'', p_is_done = Some True\<rparr>,
       POST_todos \<lparr>p_id = Some 1, p_title = Some ''d'', p_is_done = None\<rparr>,
       POST_todos \<lparr>p_id = None, p_title = Some ''a'', p_is_done = None\<rparr>]
      (create_all 0)))) = 3"
proof -
  let ?gen = "counter :: (32, 32 word) engine"
  let ?rs = "[POST_todos \<lparr>p_id = None, p_title = Some ''a'', p_is_done = None\<rparr>,
       POST_todos \<lparr>p_id = None, p_title = None, p_is_done = None\<rparr>,
       GET_todos,
       POST_todos \<lparr>p_id = None, p_title = Some ''c'', p_is_done = Some True\<rparr>,
       POST_todos \<lparr>p_id = Some 1, p_title = Some ''d'', p_is_done = None\<rparr>,
       POST_todos \<lparr>p_id = None, p_title = Some ''a'', p_is_done = None\<rparr>]"
  have h: "\<forall>r \<in> set ?rs. \<not> is_DELETE r" by simp
  have resps: "fst (serve ?gen ?rs (create_all 0))
     = [(200, Task \<lparr>item_id = Some 1, title = ''a'', is_done = False\<rparr>),
        (500, InternalServerError),
        (200, Tasks [\<lparr>item_id = Some 1, title = ''a'', is_done = False\<rparr>]),
        (200, Task \<lparr>item_id = Some 3, title = ''c'', is_done = True\<rparr>),
        (500, InternalServerError),
        (200, Task \<lparr>item_id = Some 4, title = ''a'', is_done = False\<rparr>)]"
    by (simp add: model_defs)
  from listing_count [of ?gen 0 ?rs] h
  have "length (get_all_todos ?gen (snd (serve ?gen ?rs (create_all 0))))
          = length (filter is_created (fst (serve ?gen ?rs (create_all 0))))"
    by blast
  then show ?thesis unfolding resps by simp
qed

text \<open>
  C7. On the empty table, creating \<^verbatim>\<open>{"title": "buy milk"}\<close> and then listing yields
  the created Task and a listing of exactly one record, with the title \<open>buy milk\<close>,
  \<open>is_done\<close> false, and the integer \<open>id\<close> that the store generates. This holds for
  every engine: on an empty table no key can collide.
\<close>

theorem buy_milk_roundtrip:
  "fst (serve gen
     [POST_todos \<lparr>p_id = None, p_title = Some ''buy milk'', p_is_done = None\<rparr>, GET_todos]
     (create_all g))
   = [(200, Task \<lparr>item_id = Some (sint (fst (generate gen g []))),
                   title = ''buy milk'', is_done = False\<rparr>),
      (200, Tasks [\<lparr>item_id = Some (sint (fst (generate gen g []))),
                    title = ''buy milk'', is_done = False\<rparr>])]"
  by (simp add: construct_def load_def add_todo_def session_add_commit_def get_all_todos_def
        session_select_all_def create_all_def split_beta)

text \<open>C7 with a sequence that stands at 41: the Task gets the \<open>id\<close> 42.\<close>

theorem buy_milk_roundtrip_witness:
  "fst (serve (counter :: (64, 64 word) engine)
     [POST_todos \<lparr>p_id = None, p_title = Some ''buy milk'', p_is_done = None\<rparr>, GET_todos]
     (create_all 41))
   = [(200, Task \<lparr>item_id = Some 42, title = ''buy milk'', is_done = False\<rparr>),
      (200, Tasks [\<lparr>item_id = Some 42, title = ''buy milk'', is_done = False\<rparr>])]"
  using buy_milk_roundtrip [of "counter :: (64, 64 word) engine" 41]
  by (simp add: counter_def del: serve.simps)

text \<open>
  C8, as stated, fails: a Task is created under the \<open>id\<close> 5 that the client sent,
  deleted, and a second Task is created under the same \<open>id\<close> 5. The \<open>id\<close> was not
  assigned by the store, and it is used again after the deletion.
\<close>

theorem id_reused_after_deletion_counterexample:
  "fst (serve (counter :: (32, 32 word) engine)
     [POST_todos \<lparr>p_id = Some 5, p_title = Some ''a'', p_is_done = None\<rparr>,
      DELETE_todos 5,
      POST_todos \<lparr>p_id = Some 5, p_title = Some ''b'', p_is_done = None\<rparr>]
     (create_all 0))
   = [(200, Task \<lparr>item_id = Some 5, title = ''a'', is_done = False\<rparr>),
      (200, Object [(''message'', ''Deleted successfully'')]),
      (200, Task \<lparr>item_id = Some 5, title = ''b'', is_done = False\<rparr>)]"
  by (simp add: model_defs)

text \<open>
  C8, amended. In every store state reached from the empty table by any sequence of
  requests, every persisted Task has a non-null \<open>id\<close> that no other persisted Task has,
  and every persisted Task is the Task that the response to its creation reported: its
  \<open>id\<close> was fixed at insertion (the client's when the payload carried one, the store's
  otherwise).
\<close>

theorem primary_key_invariant:
  "primary_key (snd (serve gen rs (create_all g)))
   \<and> set (get_all_todos gen (snd (serve gen rs (create_all g))))
       \<subseteq> {t. (200, Task t) \<in> set (fst (serve gen rs (create_all g)))}"
proof
  have "primary_key (create_all g)"
    by (simp add: primary_key_def ids_def create_all_def)
  then show "primary_key (snd (serve gen rs (create_all g)))"
    by (rule serve_primary_key)
next
  from serve_rows_origin [of gen rs "create_all g"]
  show "set (get_all_todos gen (snd (serve gen rs (create_all g))))
       \<subseteq> {t. (200, Task t) \<in> set (fst (serve gen rs (create_all g)))}"
    by (simp add: set_get_all_todos create_all_def)
qed

text \<open>
  C8 on a run where the second creation repeats the \<open>id\<close> 5 and is rejected: the table
  holds the rows 5 and 1.
\<close>

theorem primary_key_invariant_witness:
  "primary_key (snd (serve (counter :: (32, 32 word) engine)
     [POST_todos \<lparr>p_id = Some 5, p_title = Some ''a'', p_is_done = None\<rparr>,
      POST_todos \<lparr>p_id = Some 5, p_title = Some ''b'', p_is_done = None\<rparr>,
      POST_todos \<lparr>p_id = None, p_title = Some ''c'', p_is_done = None\<rparr>]
     (create_all 0)))
   \<and> get_all_todos (counter :: (32, 32 word) engine) (snd (serve counter
     [POST_todos \<lparr>p_id = Some 5, p_title = Some ''a'', p_is_done = None\<rparr>,
      POST_todos \<lparr>p_id = Some 5, p_title = Some ''b'', p_is_done = None\<rparr>,
      POST_todos \<lparr>p_id = None, p_title = Some ''c'', p_is_done = None\<rparr>]
     (create_all 0)))
     = [\<lparr>item_id = Some 5, title = ''a'', is_done = False\<rparr>,
        \<lparr>item_id = Some 1, title = ''c'', is_done = False\<rparr>]"
proof -
  let ?gen = "counter :: (32, 32 word) engine"
  let ?rs = "[POST_todos \<lparr>p_id = Some 5, p_title = Some ''a'', p_is_done = None\<rparr>,
      POST_todos \<lparr>p_id = Some 5, p_title = Some ''b'', p_is_done = None\<rparr>,
      POST_todos \<lparr>p_id = None, p_title = Some ''c'', p_is_done = None\<rparr>]"
  have rows: "get_all_todos ?gen (snd (serve ?gen ?rs (create_all 0)))
     = [\<lparr>item_id = Some 5, title = ''a'', is_done = False\<rparr>,
        \<lparr>item_id = Some 1, title = ''c'', is_done = False\<rparr>]"
    by (simp add: model_defs)
  from primary_key_invariant [of ?gen ?rs 0] rows show ?thesis by blast
qed

text \<open>
  C9. The connection string is a function of the environment alone. When the variable
  \<open>DATABASE_URL\<close> is unset it is the local file-based default; a configured string
  that begins with \<open>postgres://\<close> has exactly that leading prefix rewritten to
  \<open>postgresql://\<close> (the rest is kept as it is); every other configured string is used
  unchanged.
\<close>

theorem DATABASE_URL_spec:
  "(env ''DATABASE_URL'' = None \<longrightarrow> DATABASE_URL env = ''sqlite:///./local_database.db'')
   \<and> (\<forall>rest. env ''DATABASE_URL'' = Some (''postgres://'' @ rest)
          \<longrightarrow> DATABASE_URL env = ''postgresql://'' @ rest)
   \<and> (\<forall>v. env ''DATABASE_URL'' = Some v \<and> (\<nexists>rest. v = ''postgres://'' @ rest)
          \<longrightarrow> DATABASE_URL env = v)"
proof (intro conjI allI impI)
  assume "env ''DATABASE_URL'' = None"
  then show "DATABASE_URL env = ''sqlite:///./local_database.db''"
    by (simp add: DATABASE_URL_def environ_get_def)
next
  fix rest
  assume a: "env ''DATABASE_URL'' = Some (''postgres://'' @ rest)"
  have "startswith (''postgres://'' @ rest) ''postgres://''"
    by (rule startswith_append)
  moreover have "replace_first (''postgres://'' @ rest) ''postgres://'' ''postgresql://''
      = ''postgresql://'' @ rest"
    by (rule replace_first_prefix)
  ultimately show "DATABASE_URL env = ''postgresql://'' @ rest"
    using a by (simp only: DATABASE_URL_def environ_get_def Let_def option.case if_True)
next
  fix v
  assume a: "env ''DATABASE_URL'' = Some v \<and> (\<nexists>rest. v = ''postgres://'' @ rest)"
  then have "\<not> startswith v ''postgres://''"
    by (simp only: startswith_iff not_False_eq_True)
  with a show "DATABASE_URL env = v"
    by (simp only: DATABASE_URL_def environ_get_def Let_def option.case if_False)
qed

text \<open>
  The three cases of C9 on concrete environments: no variable, a string that begins with
  the legacy scheme and contains it a second time (only the leading one is rewritten), and
  a string that contains the legacy scheme but does not begin with it.
\<close>

theorem DATABASE_URL_spec_witness:
  "DATABASE_URL Map.empty = ''sqlite:///./local_database.db''
   \<and> DATABASE_URL [''DATABASE_URL'' \<mapsto> ''postgres://u@h/postgres://''] = ''postgresql://u@h/postgres://''
   \<and> DATABASE_URL [''DATABASE_URL'' \<mapsto> ''mysql://postgres://h''] = ''mysql://postgres://h''"
proof -
  let ?e2 = "[''DATABASE_URL'' \<mapsto> ''postgres://u@h/postgres://'']"
  let ?e3 = "[''DATABASE_URL'' \<mapsto> ''mysql://postgres://h'']"
  have 1: "DATABASE_URL Map.empty = ''sqlite:///./local_database.db''"
    using DATABASE_URL_spec [of Map.empty] by simp
  have 2: "DATABASE_URL ?e2 = ''postgresql://u@h/postgres://''"
    using DATABASE_URL_spec [of ?e2] by simp
  have 3: "DATABASE_URL ?e3 = ''mysql://postgres://h''"
    using DATABASE_URL_spec [of ?e3] by simp
  from 1 2 3 show ?thesis by simp
qed

text \<open>
  C10. For every store state and every \<open>k\<close> that a row has, the deletion of \<open>k\<close>
  succeeds and the listing afterwards is the listing before without the records of
  \<open>id\<close> \<open>k\<close>: every other record is kept, in its place, with its \<open>id\<close>,
  \<open>title\<close> and \<open>is_done\<close>. Under the primary-key constraint exactly one record is
  removed.
\<close>

theorem delete_frame:
  assumes "\<exists>row \<in> set (get_all_todos gen db). item_id row = Some k"
  shows "fst (app gen (DELETE_todos k) db)
           = (200, Object [(''message'', ''Deleted successfully'')])
       \<and> get_all_todos gen (snd (app gen (DELETE_todos k) db))
           = filter (\<lambda>row. item_id row \<noteq> Some k) (get_all_todos gen db)
       \<and> (primary_key db \<longrightarrow>
            length (get_all_todos gen (snd (app gen (DELETE_todos k) db))) + 1
              = length (get_all_todos gen db))"
proof (intro conjI impI)
  from assms have present: "Some k \<in> set (ids db)"
    using no_row_iff [of gen db k] by blast
  then have "in_range gen k" by (rule ids_in_range)
  with present show "fst (app gen (DELETE_todos k) db)
           = (200, Object [(''message'', ''Deleted successfully'')])"
    by (simp add: app_DELETE_fst del: app.simps)
  have rows: "todoitem (snd (app gen (DELETE_todos k) db))
      = filter (\<lambda>r. item_id (load r) \<noteq> Some k) (todoitem db)"
    by (rule app_DELETE_rows)
  have "filter (\<lambda>row. item_id row \<noteq> Some k) (get_all_todos gen db)
      = get_all_todos gen (db\<lparr>todoitem := filter (\<lambda>r. item_id (load r) \<noteq> Some k) (todoitem db)\<rparr>)"
    by (rule filter_get_all_todos)
  also have "\<dots> = get_all_todos gen (snd (app gen (DELETE_todos k) db))"
    by (rule get_all_todos_cong [symmetric]) (simp add: rows del: app.simps)
  finally show "get_all_todos gen (snd (app gen (DELETE_todos k) db))
           = filter (\<lambda>row. item_id row \<noteq> Some k) (get_all_todos gen db)"
    by (rule sym)
  assume "primary_key db"
  then have "distinct (map (\<lambda>r. item_id (load r)) (todoitem db))"
    by (simp add: primary_key_def ids_def)
  moreover from present have "Some k \<in> (\<lambda>r. item_id (load r)) ` set (todoitem db)"
    by (simp add: ids_def)
  ultimately have "length (filter (\<lambda>r. item_id (load r) \<noteq> Some k) (todoitem db)) + 1
      = length (todoitem db)"
    by (rule length_filter_distinct)
  with rows show "length (get_all_todos gen (snd (app gen (DELETE_todos k) db))) + 1
              = length (get_all_todos gen db)"
    by (simp add: length_get_all_todos del: app.simps)
qed

text \<open>C10 on a table with the rows 1, 2 and 3: deleting 2 leaves the rows 1 and 3.\<close>

theorem delete_frame_witness:
  "app (counter :: (32, 32 word) engine) (DELETE_todos 2)
     \<lparr>todoitem = [\<lparr>key = 1, row_title = ''a'', row_is_done = False\<rparr>,
                  \<lparr>key = 2, row_title = ''b'', row_is_done = True\<rparr>,
                  \<lparr>key = 3, row_title = ''c'', row_is_done = False\<rparr>], sequence = 3\<rparr>
   = ((200, Object [(''message'', ''Deleted successfully'')]),
      \<lparr>todoitem = [\<lparr>key = 1, row_title = ''a'', row_is_done = False\<rparr>,
                   \<lparr>key = 3, row_title = ''c'', row_is_done = False\<rparr>], sequence = 3\<rparr>)
   \<and> get_all_todos (counter :: (32, 32 word) engine) (snd (app counter (DELETE_todos 2)
     \<lparr>todoitem = [\<lparr>key = 1, row_title = ''a'', row_is_done = False\<rparr>,
                  \<lparr>key = 2, row_title = ''b'', row_is_done = True\<rparr>,
                  \<lparr>key = 3, row_title = ''c'', row_is_done = False\<rparr>], sequence = 3\<rparr>))
     = [\<lparr>item_id = Some 1, title = ''a'', is_done = False\<rparr>,
        \<lparr>item_id = Some 3, title = ''c'', is_done = False\<rparr>]"
proof -
  let ?gen = "counter :: (32, 32 word) engine"
  let ?db = "\<lparr>todoitem = [\<lparr>key = 1, row_title = ''a'', row_is_done = False\<rparr>,
                  \<lparr>key = 2, row_title = ''b'', row_is_done = True\<rparr>,
                  \<lparr>key = 3, row_title = ''c'', row_is_done = False\<rparr>],
              sequence = 3\<rparr> :: (32, 32 word) database"
  have l: "get_all_todos ?gen ?db
      = [\<lparr>item_id = Some 1, title = ''a'', is_done = False\<rparr>,
         \<lparr>item_id = Some 2, title = ''b'', is_done = True\<rparr>,
         \<lparr>item_id = Some 3, title = ''c'', is_done = False\<rparr>]"
    by (simp add: model_defs)
  have h: "\<exists>row \<in> set (get_all_todos ?gen ?db). item_id row = Some 2"
    unfolding l by simp
  have a: "app ?gen (DELETE_todos 2) ?db
   = ((200, Object [(''message'', ''Deleted successfully'')]),
      \<lparr>todoitem = [\<lparr>key = 1, row_title = ''a'', row_is_done = False\<rparr>,
                   \<lparr>key = 3, row_title = ''c'', row_is_done = False\<rparr>], sequence = 3\<rparr>)"
    by (simp add: model_defs)
  have "get_all_todos ?gen (snd (app ?gen (DELETE_todos 2) ?db))
      = filter (\<lambda>row. item_id row \<noteq> Some 2) (get_all_todos ?gen ?db)"
    using delete_frame [OF h] by blast
  then have "get_all_todos ?gen (snd (app ?gen (DELETE_todos 2) ?db))
     = [\<lparr>item_id = Some 1, title = ''a'', is_done = False\<rparr>,
        \<lparr>item_id = Some 3, title = ''c'', is_done = False\<rparr>]"
    unfolding l by simp
  with a show ?thesis by blast
qed

end
